theory Spec2Isabelle
  imports Main "HOL-Library.Sublist" "HOL-Library.Char_ord" "HOL-Library.List_Lexorder"
    "HOL-Library.AList"
begin

section \<open>Go string helpers used by the crawler\<close>

text \<open>
  Go strings are byte sequences; they are modelled as \<open>string\<close> (a list of 8-bit
  characters). The functions below are the ones of package \<open>strings\<close> that the
  repository calls, restricted to the way it calls them (single-byte separators).
\<close>

definition HasPrefix :: "string \<Rightarrow> string \<Rightarrow> bool" where
  "HasPrefix s p = prefix p s"

definition HasSuffix :: "string \<Rightarrow> string \<Rightarrow> bool" where
  "HasSuffix s p = suffix p s"

fun Contains :: "string \<Rightarrow> string \<Rightarrow> bool" where
  "Contains [] sub = (sub = [])"
| "Contains (c # s) sub = (prefix sub (c # s) \<or> Contains s sub)"

text \<open>\<open>strings.Split(s, sep)\<close> for a one-byte separator: always at least one part.\<close>

fun Split :: "string \<Rightarrow> char \<Rightarrow> string list" where
  "Split [] sep = [[]]"
| "Split (c # s) sep =
     (if c = sep then [] # Split s sep
      else (c # hd (Split s sep)) # tl (Split s sep))"

text \<open>
  White space: \<open>strings.TrimSpace\<close> and \<open>strings.Fields\<close> use \<open>unicode.IsSpace\<close>,
  whose ASCII members are tab, line feed, vertical tab, form feed, carriage return and
  space; the regular expression class \<open>\s\<close> is tab, line feed, form feed, carriage
  return and space (no vertical tab). Only the ASCII members are modelled.
\<close>

definition isSpace :: "char \<Rightarrow> bool" where
  "isSpace c = (c \<in> set [CHR 0x09, CHR 0x0A, CHR 0x0B, CHR 0x0C, CHR 0x0D, CHR '' ''])"

definition reSpace :: "char \<Rightarrow> bool" where
  "reSpace c = (c \<in> set [CHR 0x09, CHR 0x0A, CHR 0x0C, CHR 0x0D, CHR '' ''])"

definition TrimSpace :: "string \<Rightarrow> string" where
  "TrimSpace s = rev (dropWhile isSpace (rev (dropWhile isSpace s)))"

text \<open>\<open>len(strings.Fields(s))\<close>: the number of maximal runs of non-space bytes.\<close>

fun Fields :: "string \<Rightarrow> string list" where
  "Fields [] = []"
| "Fields (c # s) =
     (if isSpace c then Fields s
      else (case Fields s of
              [] \<Rightarrow> [[c]]
            | w # ws \<Rightarrow> (if s \<noteq> [] \<and> \<not> isSpace (hd s) then (c # w) # ws else [c] # w # ws)))"

section \<open>Regular expressions of the URL filter\<close>

text \<open>
  The URL filter holds its patterns as regular-expression source text and matches them
  with \<open>regexp.MatchString\<close> (an unanchored search). The patterns use only literals,
  the classes \<open>[^/]\<close> and \<open>\d\<close> under \<open>+\<close>, alternation and the end-of-text anchor
  \<open>$\<close>; the syntax tree below covers exactly that fragment.
\<close>

datatype cclass = NotSlash | Digit

datatype regex =
    Lit string
  | Many1 cclass
  | Cat regex regex
  | Alt regex regex
  | EndText

fun inClass :: "cclass \<Rightarrow> char \<Rightarrow> bool" where
  "inClass NotSlash c = (c \<noteq> CHR ''/'')"
| "inClass Digit c = (c \<in> set ''0123456789'')"

text \<open>
  \<open>rems r s\<close> lists what is left of \<open>s\<close> after each way of matching \<open>r\<close> against a
  prefix of \<open>s\<close>.
\<close>

fun rems :: "regex \<Rightarrow> string \<Rightarrow> string list" where
  "rems (Lit l) s = (if prefix l s then [drop (length l) s] else [])"
| "rems (Many1 c) s = map (\<lambda>n. drop n s) [1 ..< Suc (length (takeWhile (inClass c) s))]"
| "rems (Cat a b) s = concat (map (rems b) (rems a s))"
| "rems (Alt a b) s = rems a s @ rems b s"
| "rems EndText s = (if s = [] then [[]] else [])"

text \<open>\<open>regexp.MatchString(pattern, s)\<close>: the pattern matches somewhere in \<open>s\<close>.\<close>

definition MatchString :: "regex \<Rightarrow> string \<Rightarrow> bool" where
  "MatchString r s = list_ex (\<lambda>t. rems r t \<noteq> []) (suffixes s)"

section \<open>URL filter (internal/scraper/url\_filter.go)\<close>

record URLFilter =
  articlePatterns :: "regex list"
  excludePatterns :: "regex list"

definition seg :: regex where
  "seg = Many1 NotSlash"

definition staticExt :: regex where
  "staticExt =
     Alt (Lit ''jpg'') (Alt (Lit ''jpeg'') (Alt (Lit ''png'') (Alt (Lit ''gif'')
       (Alt (Lit ''pdf'') (Alt (Lit ''css'') (Lit ''js''))))))"

text \<open>The extensions named by the static-file exclusion pattern.\<close>

definition staticExts :: "string list" where
  "staticExts = [''jpg'', ''jpeg'', ''png'', ''gif'', ''pdf'', ''css'', ''js'']"

definition NewURLFilter :: URLFilter where
  "NewURLFilter = \<lparr>
     articlePatterns = [
       Cat (Lit ''/posts/'') (Cat seg (Cat (Lit ''/'') EndText)),
       Cat (Lit ''/posts/'') (Cat (Many1 Digit) (Cat (Lit ''/'') (Cat seg (Cat (Lit ''/'') EndText)))),
       Cat (Lit ''/posts/'') (Cat seg (Cat (Lit ''/'') (Cat seg (Cat (Lit ''/'') EndText)))),
       Cat (Lit ''/posts/'') (Cat seg (Cat (Lit ''-'') (Cat seg (Cat (Lit ''/'') EndText)))),
       Cat (Lit ''/posts/'') (Cat seg (Cat (Lit ''_'') (Cat seg (Cat (Lit ''/'') EndText))))],
     excludePatterns = [
       Cat (Lit ''/posts/'') EndText,
       Cat (Lit ''/posts/index.xml'') EndText,
       Lit ''/tags/'',
       Lit ''/categories/'',
       Cat (Lit ''.'') (Cat staticExt EndText)] \<rparr>"

text \<open>The loop \<open>for _, pattern := range patterns { if matched { return ... } }\<close>.\<close>

fun anyMatch :: "regex list \<Rightarrow> string \<Rightarrow> bool" where
  "anyMatch [] url = False"
| "anyMatch (p # ps) url = (if MatchString p url then True else anyMatch ps url)"

definition IsArticlePage :: "URLFilter \<Rightarrow> string \<Rightarrow> bool" where
  "IsArticlePage uf url =
     (if anyMatch (excludePatterns uf) url then False
      else if anyMatch (articlePatterns uf) url then True
      else False)"

definition listPatterns :: "regex list" where
  "listPatterns = [
     Cat (Lit ''/posts/'') EndText,
     Cat (Lit ''/posts/page/'') (Cat (Many1 Digit) (Cat (Lit ''/'') EndText)),
     Cat (Lit ''/'') EndText]"

definition IsListPage :: "URLFilter \<Rightarrow> string \<Rightarrow> bool" where
  "IsListPage uf url = anyMatch listPatterns url"

definition ShouldExtractContent :: "URLFilter \<Rightarrow> string \<Rightarrow> bool" where
  "ShouldExtractContent uf url = IsArticlePage uf url"

definition ShouldFollowLinks :: "URLFilter \<Rightarrow> string \<Rightarrow> bool" where
  "ShouldFollowLinks uf url = (IsListPage uf url \<or> IsArticlePage uf url)"

definition GetURLType :: "URLFilter \<Rightarrow> string \<Rightarrow> string" where
  "GetURLType uf url =
     (if IsArticlePage uf url then ''article''
      else if IsListPage uf url then ''list''
      else ''other'')"


section \<open>Collector scope check (internal/collector/collector.go)\<close>

record TargetConfig =
  BaseURL :: string
  StartURLs :: "string list"
  AllowedDomains :: "string list"
  ExcludePatterns :: "string list"

text \<open>
  \<open>matchesPattern\<close>: a pattern with exactly one \<open>*\<close> is a prefix/suffix test on the
  whole URL; every other pattern is a substring test.
\<close>

definition matchesPattern :: "string \<Rightarrow> string \<Rightarrow> bool" where
  "matchesPattern url pattern =
     (if Contains pattern ''*'' then
        (let parts = Split pattern (CHR ''*'') in
         if length parts = 2 then HasPrefix url (parts ! 0) \<and> HasSuffix url (parts ! 1)
         else Contains url pattern)
      else Contains url pattern)"

fun anyExcluded :: "string list \<Rightarrow> string \<Rightarrow> bool" where
  "anyExcluded [] url = False"
| "anyExcluded (pattern # ps) url = (if matchesPattern url pattern then True else anyExcluded ps url)"

fun anyDomainContained :: "string list \<Rightarrow> string \<Rightarrow> bool" where
  "anyDomainContained [] url = False"
| "anyDomainContained (domain # ds) url = (if Contains url domain then True else anyDomainContained ds url)"

definition IsAllowedURL :: "TargetConfig \<Rightarrow> string \<Rightarrow> bool" where
  "IsAllowedURL cfg url =
     (if anyExcluded (ExcludePatterns cfg) url then False
      else if anyDomainContained (AllowedDomains cfg) url then True
      else False)"

text \<open>
  The host of a URL, as \<open>url.Parse(u).Host\<close> gives it for a URL of the shape
  \<open>scheme://[userinfo@]host[:port][/path][?query][#fragment]\<close>: the text after the
  first \<open>://\<close> up to the next \<open>/\<close>, \<open>?\<close> or \<open>#\<close>, without the user information.
  \<open>url.Parse\<close> fails on a URL with an ASCII control character; its other errors are
  not modelled.
\<close>

fun afterScheme :: "string \<Rightarrow> string option" where
  "afterScheme [] = None"
| "afterScheme (c # s) = (if prefix ''://'' (c # s) then Some (drop 3 (c # s)) else afterScheme s)"

fun afterLastAt :: "string \<Rightarrow> string" where
  "afterLastAt [] = []"
| "afterLastAt (c # s) = (if CHR ''@'' \<in> set (c # s) then (if c = CHR ''@'' \<and> CHR ''@'' \<notin> set s then s else afterLastAt s) else c # s)"

definition url_Host :: "string \<Rightarrow> string option" where
  "url_Host u =
     (if list_ex (\<lambda>c. of_char c < (0x20::nat) \<or> of_char c = (0x7F::nat)) u then None
      else (case afterScheme u of
              None \<Rightarrow> Some []
            | Some r \<Rightarrow> Some (afterLastAt (takeWhile (\<lambda>c. c \<notin> set ''/?#'') r))))"

text \<open>\<open>Scraper.isValidInternalLink\<close> (scraper.go), the scraper's own scope check.\<close>

fun hostAllowed :: "string list \<Rightarrow> string list \<Rightarrow> string \<Rightarrow> string \<Rightarrow> bool" where
  "hostAllowed [] pats host urlStr = False"
| "hostAllowed (domain # ds) pats host urlStr =
     (if host = domain then \<not> anyExcluded pats urlStr else hostAllowed ds pats host urlStr)"

definition isValidInternalLink :: "TargetConfig \<Rightarrow> string \<Rightarrow> bool" where
  "isValidInternalLink cfg urlStr =
     (case url_Host urlStr of
        None \<Rightarrow> False
      | Some host \<Rightarrow> hostAllowed (AllowedDomains cfg) (ExcludePatterns cfg) host urlStr)"

section \<open>Scraper (internal/scraper/scraper.go)\<close>

text \<open>
  Times are kept as text: a \<open>time.Time\<close> is represented by its RFC 3339 rendering, the
  form in which it is written to the output file.
\<close>

record Article =
  URL :: string
  Title :: string
  Content :: string
  PlainText :: string
  Author :: string
  PublishedDate :: "string option"
  ScrapedAt :: string
  WordCount :: int
  ContentHash :: string

text \<open>
  A fetched page as the scraper sees it through colly and goquery: the request URL, the
  concatenated text of the nodes a selector finds, and the elements a selector visits in
  document order.
\<close>

record Element =
  ElHtml :: "string option"
  ElText :: string
  ElAttr :: "string \<Rightarrow> string"

record HTMLElement =
  RequestURL :: string
  FindText :: "string \<Rightarrow> string"
  ForEach :: "string \<Rightarrow> Element list"

text \<open>colly's \<open>ChildText\<close>: the trimmed text of the matching nodes.\<close>

definition ChildText :: "HTMLElement \<Rightarrow> string \<Rightarrow> string" where
  "ChildText e selector = TrimSpace (FindText e selector)"

text \<open>
  The library functions the scraper builds on and that are not part of the repository:
  goquery's parse-clean-render and parse-text passes (\<open>None\<close> when parsing or rendering
  returns an error), the MD5 digest in hexadecimal, \<open>time.Parse\<close>, and the resolution
  of a reference against the page URL (\<open>None\<close> when \<open>url.Parse\<close> rejects it).
\<close>

record Lib =
  goqueryClean :: "string \<Rightarrow> string option"
  goqueryText :: "string \<Rightarrow> string option"
  md5hex :: "string \<Rightarrow> string"
  timeParse :: "string \<Rightarrow> string \<Rightarrow> string option"
  resolveReference :: "string \<Rightarrow> string \<Rightarrow> string option"

record ArticleSelectors =
  SelTitle :: string
  SelContent :: string
  SelPublishedDate :: string
  SelAuthor :: string

record Scraper =
  selectors :: ArticleSelectors
  articles :: "Article list"
  visitedURLs :: "string \<Rightarrow> bool"
  urlFilter :: URLFilter

definition NewScraper :: "ArticleSelectors \<Rightarrow> Scraper" where
  "NewScraper sel = \<lparr> selectors = sel, articles = [], visitedURLs = (\<lambda>_. False),
     urlFilter = NewURLFilter \<rparr>"

text \<open>\<open>cleanText\<close>: every run matched by \<open>\s+\<close> becomes one space, then the ends are trimmed.\<close>

fun collapseSpaces :: "string \<Rightarrow> string" where
  "collapseSpaces [] = []"
| "collapseSpaces (c # s) =
     (if reSpace c then
        (if s \<noteq> [] \<and> reSpace (hd s) then collapseSpaces s else CHR '' '' # collapseSpaces s)
      else c # collapseSpaces s)"

definition cleanText :: "string \<Rightarrow> string" where
  "cleanText text = TrimSpace (collapseSpaces text)"

fun firstChildText :: "HTMLElement \<Rightarrow> string list \<Rightarrow> string option" where
  "firstChildText e [] = None"
| "firstChildText e (selector # rest) =
     (let title = ChildText e (TrimSpace selector) in
      if title \<noteq> [] then Some (cleanText title) else firstChildText e rest)"

definition extractTitle :: "Scraper \<Rightarrow> HTMLElement \<Rightarrow> string" where
  "extractTitle s e =
     (case firstChildText e (Split (SelTitle (selectors s)) (CHR '','')) of
        Some title \<Rightarrow> title
      | None \<Rightarrow>
          (let pageTitle = cleanText (ChildText e ''title'') in
           if pageTitle \<noteq> [] then
             (let parts = Split pageTitle (CHR ''|'') in
              if length parts > 0 \<and> TrimSpace (parts ! 0) \<noteq> [] then TrimSpace (parts ! 0)
              else pageTitle)
           else []))"


fun firstHtml :: "Element list \<Rightarrow> string" where
  "firstHtml [] = []"
| "firstHtml (el # els) =
     (case ElHtml el of
        Some html \<Rightarrow> (if html \<noteq> [] then html else firstHtml els)
      | None \<Rightarrow> firstHtml els)"

definition cleanHTML :: "Lib \<Rightarrow> string \<Rightarrow> string" where
  "cleanHTML lib html = (case goqueryClean lib html of None \<Rightarrow> html | Some cleaned \<Rightarrow> cleaned)"

fun firstContent :: "Lib \<Rightarrow> HTMLElement \<Rightarrow> string list \<Rightarrow> string" where
  "firstContent lib e [] = []"
| "firstContent lib e (selector # rest) =
     (let content = firstHtml (ForEach e (TrimSpace selector)) in
      if content \<noteq> [] then cleanHTML lib content else firstContent lib e rest)"

definition extractContent :: "Lib \<Rightarrow> Scraper \<Rightarrow> HTMLElement \<Rightarrow> string" where
  "extractContent lib s e = firstContent lib e (Split (SelContent (selectors s)) (CHR '',''))"

fun firstAuthor :: "HTMLElement \<Rightarrow> string list \<Rightarrow> string" where
  "firstAuthor e [] = []"
| "firstAuthor e (selector # rest) =
     (let author = ChildText e (TrimSpace selector) in
      if author \<noteq> [] then cleanText author else firstAuthor e rest)"

definition extractAuthor :: "Scraper \<Rightarrow> HTMLElement \<Rightarrow> string" where
  "extractAuthor s e =
     (if SelAuthor (selectors s) = [] then []
      else firstAuthor e (Split (SelAuthor (selectors s)) (CHR '','')))"

definition dateFormats :: "string list" where
  "dateFormats = [''2006-01-02T15:04:05Z07:00'', ''2006-01-02T15:04:05.999999999Z07:00'',
     ''2006-01-02T15:04:05Z'', ''2006-01-02T15:04:05'', ''2006-01-02 15:04:05'',
     ''2006-01-02'', ''January 2, 2006'', ''Jan 2, 2006'', ''2006/01/02'']"

fun firstParse :: "Lib \<Rightarrow> string list \<Rightarrow> string \<Rightarrow> string option" where
  "firstParse lib [] dateStr = None"
| "firstParse lib (format # rest) dateStr =
     (case timeParse lib format dateStr of
        Some parsedTime \<Rightarrow> Some parsedTime
      | None \<Rightarrow> firstParse lib rest dateStr)"

definition parseDate :: "Lib \<Rightarrow> string \<Rightarrow> string option" where
  "parseDate lib dateStr = firstParse lib dateFormats (TrimSpace dateStr)"

fun firstDateStr :: "Element list \<Rightarrow> string" where
  "firstDateStr [] = []"
| "firstDateStr (el # els) =
     (let dateStr = (if ElAttr el ''datetime'' \<noteq> [] then ElAttr el ''datetime'' else ElText el) in
      if dateStr \<noteq> [] then dateStr else firstDateStr els)"

fun firstDate :: "Lib \<Rightarrow> HTMLElement \<Rightarrow> string list \<Rightarrow> string option" where
  "firstDate lib e [] = None"
| "firstDate lib e (selector # rest) =
     (let dateStr = firstDateStr (ForEach e (TrimSpace selector)) in
      if dateStr \<noteq> [] then
        (case parseDate lib dateStr of
           Some parsedDate \<Rightarrow> Some parsedDate
         | None \<Rightarrow> firstDate lib e rest)
      else firstDate lib e rest)"

definition extractPublishedDate :: "Lib \<Rightarrow> Scraper \<Rightarrow> HTMLElement \<Rightarrow> string option" where
  "extractPublishedDate lib s e =
     (if SelPublishedDate (selectors s) = [] then None
      else firstDate lib e (Split (SelPublishedDate (selectors s)) (CHR '','')))"

definition htmlToPlainText :: "Lib \<Rightarrow> string \<Rightarrow> string" where
  "htmlToPlainText lib html = (case goqueryText lib html of None \<Rightarrow> html | Some text \<Rightarrow> cleanText text)"

definition calculateWordCount :: "string \<Rightarrow> int" where
  "calculateWordCount text = int (length (Fields text))"

definition generateContentHash :: "Lib \<Rightarrow> string \<Rightarrow> string" where
  "generateContentHash lib content = md5hex lib content"

text \<open>
  \<open>ExtractArticle\<close> returns the article (or \<open>None\<close> for Go's \<open>nil\<close>) and the scraper with
  its visited set and article list updated; \<open>now\<close> is the reading of the clock.
\<close>

definition ExtractArticle :: "Lib \<Rightarrow> string \<Rightarrow> Scraper \<Rightarrow> HTMLElement \<Rightarrow> Article option \<times> Scraper" where
  "ExtractArticle lib now s e =
     (let urlStr = RequestURL e in
      if visitedURLs s urlStr then (None, s)
      else
        (let s1 = s\<lparr>visitedURLs := (visitedURLs s)(urlStr := True)\<rparr> in
         if \<not> ShouldExtractContent (urlFilter s1) urlStr then (None, s1)
         else
           (let title = extractTitle s1 e in
            if title = [] then (None, s1)
            else
              (let content = extractContent lib s1 e in
               if content = [] then (None, s1)
               else
                 (let author = extractAuthor s1 e;
                      publishedDate = extractPublishedDate lib s1 e;
                      plainText = htmlToPlainText lib content;
                      wordCount = calculateWordCount plainText;
                      contentHash = generateContentHash lib (title @ plainText);
                      article = \<lparr> URL = urlStr, Title = TrimSpace title, Content = content,
                        PlainText = plainText, Author = author, PublishedDate = publishedDate,
                        ScrapedAt = now, WordCount = wordCount, ContentHash = contentHash \<rparr>
                  in (Some article, s1\<lparr>articles := articles s1 @ [article]\<rparr>))))))"

text \<open>A run of \<open>ExtractArticle\<close> calls on one scraper, with the result of each call.\<close>

fun extractAll :: "Lib \<Rightarrow> Scraper \<Rightarrow> (string \<times> HTMLElement) list \<Rightarrow> Article option list \<times> Scraper" where
  "extractAll lib s [] = ([], s)"
| "extractAll lib s ((now, e) # rest) =
     (let (r, s1) = ExtractArticle lib now s e;
          (rs, s2) = extractAll lib s1 rest
      in (r # rs, s2))"

definition resolveURL :: "Lib \<Rightarrow> string \<Rightarrow> string \<Rightarrow> string" where
  "resolveURL lib base href = (case resolveReference lib base href of None \<Rightarrow> [] | Some u \<Rightarrow> u)"

text \<open>
  One iteration of the callback of \<open>e.ForEach("a[href]", ...)\<close> in \<open>ExtractLinks\<close>; the
  state is the list \<open>links\<close> and the map \<open>linkMap\<close>.
\<close>

definition linkStep :: "Lib \<Rightarrow> string \<Rightarrow> string list \<times> (string \<Rightarrow> bool) \<Rightarrow> Element
    \<Rightarrow> string list \<times> (string \<Rightarrow> bool)" where
  "linkStep lib base st el =
     (let href = ElAttr el ''href'' in
      if href = [] then st
      else
        (let absoluteURL = resolveURL lib base href in
         if absoluteURL = [] then st
         else
           (let st1 =
                  (if Contains absoluteURL ''/posts/'' \<and> HasSuffix absoluteURL ''/''
                      \<and> \<not> HasSuffix absoluteURL ''/posts/'' \<and> \<not> Contains absoluteURL ''/page/''
                   then (if \<not> snd st absoluteURL
                         then (fst st @ [absoluteURL], (snd st)(absoluteURL := True)) else st)
                   else st)
            in (if Contains absoluteURL ''/page/'' \<or> Contains absoluteURL ''/posts/page/''
                then (if \<not> snd st1 absoluteURL
                      then (fst st1 @ [absoluteURL], (snd st1)(absoluteURL := True)) else st1)
                else st1))))"

definition ExtractLinks :: "Lib \<Rightarrow> HTMLElement \<Rightarrow> string list" where
  "ExtractLinks lib e =
     fst (foldl (linkStep lib (RequestURL e)) ([], (\<lambda>_. False)) (ForEach e ''a[href]''))"


section \<open>JSON Lines storage (internal/storage/jsonl.go)\<close>

subsection \<open>The record written for an article\<close>

text \<open>
  \<open>json.Marshal\<close> on an \<open>Article\<close>: the fields in declaration order under their JSON
  names, \<open>author\<close> left out when empty and \<open>published_date\<close> when nil. In a string the
  quote, the backslash, line feed, carriage return and tab get their two-character
  escapes, the other control characters and \<open><\<close>, \<open>>\<close>, \<open>&\<close> are written as \<open>\u00XX\<close>;
  every other byte is copied (the text is taken to be valid UTF-8).
\<close>

definition hexChars :: string where
  "hexChars = ''0123456789abcdef''"

definition jsonEscape :: "char \<Rightarrow> string" where
  "jsonEscape c =
     (if c = CHR 0x22 then [CHR 0x5C, CHR 0x22]
      else if c = CHR 0x5C then [CHR 0x5C, CHR 0x5C]
      else if c = CHR 0x0A then [CHR 0x5C, CHR ''n'']
      else if c = CHR 0x0D then [CHR 0x5C, CHR ''r'']
      else if c = CHR 0x09 then [CHR 0x5C, CHR ''t'']
      else if of_char c < (0x20::nat) \<or> c \<in> set ''<>&'' then
        [CHR 0x5C, CHR ''u'', CHR ''0'', CHR ''0'',
         hexChars ! (of_char c div 16), hexChars ! (of_char c mod 16)]
      else [c])"

definition jsonString :: "string \<Rightarrow> string" where
  "jsonString s = CHR 0x22 # concat (map jsonEscape s) @ [CHR 0x22]"

fun showNat :: "nat \<Rightarrow> string" where
  "showNat n = (if n < 10 then [hexChars ! n] else showNat (n div 10) @ [hexChars ! (n mod 10)])"

definition showInt :: "int \<Rightarrow> string" where
  "showInt i = (if i < 0 then CHR ''-'' # showNat (nat (- i)) else showNat (nat i))"

definition jsonKey :: "string \<Rightarrow> string" where
  "jsonKey k = CHR 0x22 # k @ [CHR 0x22, CHR '':'']"

definition jsonMarshal :: "Article \<Rightarrow> string" where
  "jsonMarshal a =
     ''{'' @ jsonKey ''url'' @ jsonString (URL a)
     @ '','' @ jsonKey ''title'' @ jsonString (Title a)
     @ '','' @ jsonKey ''content'' @ jsonString (Content a)
     @ '','' @ jsonKey ''plain_text'' @ jsonString (PlainText a)
     @ (if Author a = [] then [] else '','' @ jsonKey ''author'' @ jsonString (Author a))
     @ (case PublishedDate a of None \<Rightarrow> []
        | Some t \<Rightarrow> '','' @ jsonKey ''published_date'' @ jsonString t)
     @ '','' @ jsonKey ''scraped_at'' @ jsonString (ScrapedAt a)
     @ '','' @ jsonKey ''word_count'' @ showInt (WordCount a)
     @ '','' @ jsonKey ''content_hash'' @ jsonString (ContentHash a)
     @ ''}''"

subsection \<open>Store, disk and environment\<close>

record StorageConfig =
  OutputFile :: string
  BackupEnabled :: bool
  BackupDirectory :: string
  MaxBackupFiles :: int
  Format :: string

record JSONLStorage =
  config :: StorageConfig
  outputFile :: string
  existingHashes :: "string set"

text \<open>
  The part of the file system the store touches: the content of the output file (\<open>None\<close>
  when the file does not exist) and the backup directory as a list of file names with
  their contents. The output file is taken to lie outside the backup directory.
\<close>

record Disk =
  outFile :: "string option"
  backupDir :: "(string \<times> string) list"

datatype error =
    MkdirError | OpenError | EncodeError | WriteError | NewlineError
  | ScanError | CopyError | GlobError | SliceBoundsPanic

datatype write_fault = WriteOk | MarshalFails | WriteFails nat | NewlineFails

datatype copy_fault = CopyOk | SrcOpenFails | DstCreateFails | IoCopyFails nat

text \<open>
  What the operating system and the clock answer during one call: the timestamp
  \<open>time.Now().Format("20060102_150405")\<close>, and for each system call whether it fails
  (a failing write or copy with the number of bytes it still transferred). The error
  return of \<open>json.Marshal\<close> (a time whose year is outside 0 to 9999) is the write fault
  \<open>MarshalFails\<close>.
\<close>

record IOEnv =
  now :: string
  mkdirOutFails :: bool
  mkdirBackupFails :: bool
  openFails :: bool
  writeFault :: write_fault
  batchFault :: "nat \<Rightarrow> write_fault"
  flushFails :: bool
  readOpenFails :: bool
  readFails :: bool
  copyFault :: copy_fault
  globFails :: bool
  removeFails :: "string \<Rightarrow> bool"

definition contents :: "Disk \<Rightarrow> string" where
  "contents d = (case outFile d of None \<Rightarrow> [] | Some c \<Rightarrow> c)"

definition appendOut :: "Disk \<Rightarrow> string \<Rightarrow> Disk" where
  "appendOut d bytes = d\<lparr>outFile := Some (contents d @ bytes)\<rparr>"

subsection \<open>Backups\<close>

definition backupFileName :: "string \<Rightarrow> string" where
  "backupFileName timestamp = ''articles_backup_'' @ timestamp @ ''.jsonl''"

text \<open>\<open>filepath.Glob\<close> with the pattern \<open>articles_backup_*.jsonl\<close> in the backup directory.\<close>

definition isBackupName :: "string \<Rightarrow> bool" where
  "isBackupName name =
     (prefix ''articles_backup_'' name \<and> suffix ''.jsonl'' name \<and> 22 \<le> length name)"

definition Glob :: "(string \<times> string) list \<Rightarrow> string list" where
  "Glob dir = filter isBackupName (map fst dir)"

fun removeFiles :: "(string \<Rightarrow> bool) \<Rightarrow> string list \<Rightarrow> (string \<times> string) list
    \<Rightarrow> (string \<times> string) list" where
  "removeFiles fails [] dir = dir"
| "removeFiles fails (file # rest) dir =
     removeFiles fails rest (if fails file then dir else AList.delete file dir)"

definition cleanupOldBackups :: "IOEnv \<Rightarrow> StorageConfig \<Rightarrow> Disk \<Rightarrow> error option \<times> Disk" where
  "cleanupOldBackups env cfg d =
     (if globFails env then (Some GlobError, d)
      else
        (let files = Glob (backupDir d) in
         if int (length files) \<le> MaxBackupFiles cfg then (None, d)
         else if MaxBackupFiles cfg < 0 then (Some SliceBoundsPanic, d)
         else
           (let sorted = sort files;
                filesToDelete = take (length sorted - nat (MaxBackupFiles cfg)) sorted
            in (None, d\<lparr>backupDir := removeFiles (removeFails env) filesToDelete (backupDir d)\<rparr>))))"

definition createBackup :: "IOEnv \<Rightarrow> StorageConfig \<Rightarrow> Disk \<Rightarrow> error option \<times> Disk" where
  "createBackup env cfg d =
     (case outFile d of
        None \<Rightarrow> (None, d)
      | Some content \<Rightarrow>
          (let backupPath = backupFileName (now env) in
           case copyFault env of
             SrcOpenFails \<Rightarrow> (Some CopyError, d)
           | DstCreateFails \<Rightarrow> (Some CopyError, d)
           | IoCopyFails k \<Rightarrow>
               (Some CopyError,
                d\<lparr>backupDir := AList.update backupPath (take k content) (backupDir d)\<rparr>)
           | CopyOk \<Rightarrow>
               (let d1 = d\<lparr>backupDir := AList.update backupPath content (backupDir d)\<rparr>;
                    r = cleanupOldBackups env cfg d1
                in if fst r = Some SliceBoundsPanic then r else (None, snd r))))"


subsection \<open>Save, SaveBatch, Load, Exists\<close>

text \<open>
  The result of \<open>Save\<close> is Go's \<open>error\<close> (\<open>None\<close> for \<open>nil\<close>) with the store and the disk
  after the call. The map \<open>existingHashes\<close> only ever holds the value \<open>true\<close>, so it is
  kept as the set of its keys.
\<close>

definition Save :: "IOEnv \<Rightarrow> JSONLStorage \<Rightarrow> Disk \<Rightarrow> Article
    \<Rightarrow> error option \<times> JSONLStorage \<times> Disk" where
  "Save env j d article =
     (if ContentHash article \<in> existingHashes j then (None, j, d)
      else
        (let b = (if BackupEnabled (config j) then createBackup env (config j) d else (None, d)) in
         if fst b = Some SliceBoundsPanic then (Some SliceBoundsPanic, j, snd b)
         else if openFails env then (Some OpenError, j, snd b)
         else
           (let d1 = appendOut (snd b) [] in
            case writeFault env of
              MarshalFails \<Rightarrow> (Some EncodeError, j, d1)
            | WriteFails k \<Rightarrow> (Some WriteError, j, appendOut d1 (take k (jsonMarshal article)))
            | NewlineFails \<Rightarrow> (Some NewlineError, j, appendOut d1 (jsonMarshal article))
            | WriteOk \<Rightarrow>
                (None,
                 j\<lparr>existingHashes := insert (ContentHash article) (existingHashes j)\<rparr>,
                 appendOut d1 (jsonMarshal article @ [CHR 0x0A])))))"

text \<open>
  The loop of \<open>SaveBatch\<close>: the index, the bytes handed to the buffered writer, and the
  two counters. The fault of the \<open>i\<close>-th iteration is \<open>f i\<close>; a write that fails is
  taken to leave its first \<open>k\<close> bytes in the buffer, and a failing final flush to lose
  the buffer.
\<close>

fun batchLoop :: "(nat \<Rightarrow> write_fault) \<Rightarrow> nat \<Rightarrow> Article list
    \<Rightarrow> string set \<times> string \<times> nat \<times> nat \<Rightarrow> string set \<times> string \<times> nat \<times> nat" where
  "batchLoop f i [] st = st"
| "batchLoop f i (article # rest) (hashes, buf, savedCount, skippedCount) =
     (if ContentHash article \<in> hashes
      then batchLoop f (Suc i) rest (hashes, buf, savedCount, Suc skippedCount)
      else
        (case f i of
           MarshalFails \<Rightarrow> batchLoop f (Suc i) rest (hashes, buf, savedCount, skippedCount)
         | WriteFails k \<Rightarrow>
             batchLoop f (Suc i) rest
               (hashes, buf @ take k (jsonMarshal article), savedCount, skippedCount)
         | NewlineFails \<Rightarrow>
             batchLoop f (Suc i) rest (hashes, buf @ jsonMarshal article, savedCount, skippedCount)
         | WriteOk \<Rightarrow>
             batchLoop f (Suc i) rest
               (insert (ContentHash article) hashes, buf @ jsonMarshal article @ [CHR 0x0A],
                Suc savedCount, skippedCount)))"

definition SaveBatch :: "IOEnv \<Rightarrow> JSONLStorage \<Rightarrow> Disk \<Rightarrow> Article list
    \<Rightarrow> error option \<times> JSONLStorage \<times> Disk" where
  "SaveBatch env j d as =
     (if as = [] then (None, j, d)
      else
        (let b = (if BackupEnabled (config j) then createBackup env (config j) d else (None, d)) in
         if fst b = Some SliceBoundsPanic then (Some SliceBoundsPanic, j, snd b)
         else if openFails env then (Some OpenError, j, snd b)
         else
           (let d1 = appendOut (snd b) [];
                st = batchLoop (batchFault env) 0 as (existingHashes j, [], 0, 0)
            in (None, j\<lparr>existingHashes := fst st\<rparr>,
                if flushFails env then d1 else appendOut d1 (fst (snd st))))))"

text \<open>
  \<open>bufio.Scanner\<close> with the default line splitter and the default buffer: the text is
  cut at line feeds, a trailing carriage return is dropped from each line, a last line
  without line feed counts when it is not empty, and a line of
  \<open>bufio.MaxScanTokenSize\<close> bytes or more stops the scan with an error.
\<close>

definition maxScanTokenSize :: nat where
  "maxScanTokenSize = 64 * 1024"

definition dropCR :: "string \<Rightarrow> string" where
  "dropCR l = (if l \<noteq> [] \<and> last l = CHR 0x0D then butlast l else l)"

definition scanTokens :: "string \<Rightarrow> string list" where
  "scanTokens c =
     (let parts = Split c (CHR 0x0A) in if last parts = [] then butlast parts else parts)"

definition scanLines :: "string \<Rightarrow> error + string list" where
  "scanLines c =
     (let toks = scanTokens c in
      if list_ex (\<lambda>t. maxScanTokenSize \<le> length t) toks then Inl ScanError
      else Inr (map dropCR toks))"

fun decodeLines :: "(string \<Rightarrow> Article option) \<Rightarrow> string list \<Rightarrow> Article list" where
  "decodeLines unmarshal [] = []"
| "decodeLines unmarshal (l # ls) =
     (let line = TrimSpace l in
      if line = [] then decodeLines unmarshal ls
      else (case unmarshal line of
              None \<Rightarrow> decodeLines unmarshal ls
            | Some article \<Rightarrow> article # decodeLines unmarshal ls))"

text \<open>
  \<open>Load\<close>; \<open>unmarshal\<close> stands for \<open>json.Unmarshal\<close> into an \<open>Article\<close> (\<open>None\<close> when it
  returns an error).
\<close>

definition Load :: "(string \<Rightarrow> Article option) \<Rightarrow> IOEnv \<Rightarrow> Disk \<Rightarrow> error + Article list" where
  "Load unmarshal env d =
     (case outFile d of
        None \<Rightarrow> Inr []
      | Some c \<Rightarrow>
          (if readOpenFails env then Inl OpenError
           else (case scanLines c of
                   Inl e \<Rightarrow> Inl e
                 | Inr ls \<Rightarrow>
                     (if readFails env then Inl ScanError else Inr (decodeLines unmarshal ls)))))"

definition Exists :: "JSONLStorage \<Rightarrow> string \<Rightarrow> bool \<times> error option" where
  "Exists j contentHash = (contentHash \<in> existingHashes j, None)"

fun recordHashes :: "string set \<Rightarrow> Article list \<Rightarrow> string set" where
  "recordHashes hashes [] = hashes"
| "recordHashes hashes (article # rest) = recordHashes (insert (ContentHash article) hashes) rest"

definition loadExistingHashes :: "(string \<Rightarrow> Article option) \<Rightarrow> IOEnv \<Rightarrow> JSONLStorage \<Rightarrow> Disk
    \<Rightarrow> error option \<times> JSONLStorage" where
  "loadExistingHashes unmarshal env j d =
     (case Load unmarshal env d of
        Inl e \<Rightarrow> (Some e, j)
      | Inr as \<Rightarrow> (None, j\<lparr>existingHashes := recordHashes (existingHashes j) as\<rparr>))"

definition NewJSONLStorage :: "(string \<Rightarrow> Article option) \<Rightarrow> IOEnv \<Rightarrow> StorageConfig \<Rightarrow> Disk
    \<Rightarrow> error + JSONLStorage" where
  "NewJSONLStorage unmarshal env cfg d =
     (if mkdirOutFails env then Inl MkdirError
      else if BackupEnabled cfg \<and> mkdirBackupFails env then Inl MkdirError
      else
        (let storage = \<lparr> config = cfg, outputFile = OutputFile cfg,
                          existingHashes = {} \<rparr>
         in Inr (snd (loadExistingHashes unmarshal env storage d))))"


subsection \<open>Sequences of store operations\<close>

datatype Op = OpSave Article | OpSaveBatch "Article list"

fun opArticles :: "Op \<Rightarrow> Article list" where
  "opArticles (OpSave article) = [article]"
| "opArticles (OpSaveBatch as) = as"

fun applyOp :: "IOEnv \<Rightarrow> Op \<Rightarrow> JSONLStorage \<Rightarrow> Disk \<Rightarrow> error option \<times> JSONLStorage \<times> Disk" where
  "applyOp env (OpSave article) j d = Save env j d article"
| "applyOp env (OpSaveBatch as) j d = SaveBatch env j d as"

fun runOps :: "(IOEnv \<times> Op) list \<Rightarrow> JSONLStorage \<Rightarrow> Disk \<Rightarrow> error option list \<times> JSONLStorage \<times> Disk" where
  "runOps [] j d = ([], j, d)"
| "runOps ((env, op) # rest) j d =
     (let r = applyOp env op j d;
          rs = runOps rest (fst (snd r)) (snd (snd r))
      in (fst r # fst rs, snd rs))"

text \<open>
  The articles of a sequence that carry a fingerprint for the first time: not in the
  index \<open>hashes\<close> and not carried by an earlier article of the sequence.
\<close>

fun firstNew :: "string set \<Rightarrow> Article list \<Rightarrow> Article list" where
  "firstNew hashes [] = []"
| "firstNew hashes (article # rest) =
     (if ContentHash article \<in> hashes then firstNew hashes rest
      else article # firstNew (insert (ContentHash article) hashes) rest)"

definition recordLines :: "Article list \<Rightarrow> string" where
  "recordLines as = concat (map (\<lambda>a. jsonMarshal a @ [CHR 0x0A]) as)"

definition noBatchFaults :: "IOEnv \<Rightarrow> bool" where
  "noBatchFaults env = (\<forall>i. batchFault env i = WriteOk)"

text \<open>The retention count is usable: backups are off or the count is not negative.\<close>

definition retentionOk :: "StorageConfig \<Rightarrow> bool" where
  "retentionOk cfg = (BackupEnabled cfg \<longrightarrow> 0 \<le> MaxBackupFiles cfg)"

subsection \<open>The title fallback as the specification words it\<close>


section \<open>Specification-side notions and example inputs\<close>

text \<open>The acceptance rule of link discovery, as the claim about \<open>ExtractLinks\<close> words it.\<close>

definition linkAccepted :: "string \<Rightarrow> bool" where
  "linkAccepted u =
     ((Contains u ''/posts/'' \<and> HasSuffix u ''/'' \<and> \<not> HasSuffix u ''/posts/''
         \<and> \<not> Contains u ''/page/'')
      \<or> Contains u ''/page/'')"

text \<open>\<open>u\<close> is the non-empty absolute URL of the anchor \<open>el\<close> and is accepted.\<close>

definition candidate :: "Lib \<Rightarrow> string \<Rightarrow> Element \<Rightarrow> string \<Rightarrow> bool" where
  "candidate lib base el u =
     (ElAttr el ''href'' \<noteq> [] \<and> u = resolveURL lib base (ElAttr el ''href'') \<and> u \<noteq> []
      \<and> linkAccepted u)"

text \<open>
  How many calls of a run were made for the URL \<open>u\<close> and returned an article; \<open>rs\<close> are
  the results of the calls.
\<close>

definition producedFor :: "string \<Rightarrow> Article option list \<Rightarrow> (string \<times> HTMLElement) list \<Rightarrow> nat" where
  "producedFor u rs calls =
     length (filter (\<lambda>(r, c). r \<noteq> None \<and> RequestURL (snd c) = u) (zip rs calls))"


text \<open>The target section of configs/config.yaml.\<close>

definition siteTarget :: TargetConfig where
  "siteTarget = \<lparr> BaseURL = ''https://yamada-tech-memo.netlify.app'',
     StartURLs = [''https://yamada-tech-memo.netlify.app/posts/''],
     AllowedDomains = [''yamada-tech-memo.netlify.app''],
     ExcludePatterns = [''*.jpg'', ''*.jpeg'', ''*.png'', ''*.gif'', ''*.pdf'', ''*.css'', ''*.js'',
       ''/assets/*'', ''/images/*'', ''/posts/$'', ''/posts/index.xml'', ''/tags/*'',
       ''/categories/*''] \<rparr>"

text \<open>
  Example inputs. The example library leaves HTML as it is, takes the text itself as
  its digest, parses no date and resolves a reference by putting the site in front.
\<close>

definition exampleLib :: Lib where
  "exampleLib = \<lparr> goqueryClean = Some, goqueryText = Some, md5hex = (\<lambda>s. s),
     timeParse = (\<lambda>format value. None),
     resolveReference = (\<lambda>base href. Some (''https://x.app'' @ href)) \<rparr>"

definition exampleSelectors :: ArticleSelectors where
  "exampleSelectors = \<lparr> SelTitle = ''h1, .post-title'', SelContent = ''article'',
     SelPublishedDate = [], SelAuthor = [] \<rparr>"

definition anchor :: "string \<Rightarrow> Element" where
  "anchor href = \<lparr> ElHtml = None, ElText = [],
     ElAttr = (\<lambda>name. if name = ''href'' then href else []) \<rparr>"

definition block :: "string \<Rightarrow> Element" where
  "block html = \<lparr> ElHtml = Some html, ElText = html, ElAttr = (\<lambda>name. []) \<rparr>"

text \<open>A post whose second title selector matches and whose body is one paragraph.\<close>

definition postPage :: HTMLElement where
  "postPage = \<lparr> RequestURL = ''https://x.app/posts/hello/'',
     FindText = (\<lambda>sel. if sel = ''.post-title'' then ''  Hello   World '' else
                       if sel = ''title'' then ''Hello World | My Blog'' else []),
     ForEach = (\<lambda>sel. if sel = ''article'' then [block ''<p>text</p>''] else []) \<rparr>"




text \<open>A listing page with six anchors.\<close>

definition listingPage :: HTMLElement where
  "listingPage = \<lparr> RequestURL = ''https://x.app/posts/'',
     FindText = (\<lambda>sel. []),
     ForEach = (\<lambda>sel. if sel = ''a[href]''
       then [anchor ''/posts/a/'', anchor ''/posts/'', anchor ''/posts/page/2/'',
             anchor ''/posts/a/'', anchor [], anchor ''/about/'']
       else []) \<rparr>"

subsection \<open>Example store, disk and environment\<close>

definition emptyDisk :: Disk where
  "emptyDisk = \<lparr> outFile = None, backupDir = [] \<rparr>"

definition quietEnv :: "string \<Rightarrow> IOEnv" where
  "quietEnv timestamp = \<lparr> now = timestamp, mkdirOutFails = False, mkdirBackupFails = False,
     openFails = False, writeFault = WriteOk, batchFault = (\<lambda>i. WriteOk), flushFails = False,
     readOpenFails = False, readFails = False, copyFault = CopyOk, globFails = False,
     removeFails = (\<lambda>file. False) \<rparr>"

definition exampleConfig :: StorageConfig where
  "exampleConfig = \<lparr> OutputFile = ''data/articles.jsonl'', BackupEnabled = True,
     BackupDirectory = ''data/backups'', MaxBackupFiles = 2, Format = ''jsonl'' \<rparr>"

definition exampleStore :: JSONLStorage where
  "exampleStore = \<lparr> config = exampleConfig, outputFile = ''data/articles.jsonl'',
     existingHashes = {} \<rparr>"

definition articleA :: Article where
  "articleA = \<lparr> URL = ''https://x.app/posts/a/'', Title = ''A'', Content = ''<p>a</p>'',
     PlainText = ''a'', Author = [], PublishedDate = None, ScrapedAt = ''2024-01-15T11:00:00Z'',
     WordCount = 1, ContentHash = ''h-a'' \<rparr>"

definition articleA2 :: Article where
  "articleA2 = articleA\<lparr> URL := ''https://x.app/posts/a-copy/'' \<rparr>"


text \<open>
  The backup step that \<open>Save\<close> and \<open>SaveBatch\<close> both start with, named for the proofs.
\<close>

definition maybeBackup :: "IOEnv \<Rightarrow> JSONLStorage \<Rightarrow> Disk \<Rightarrow> error option \<times> Disk" where
  "maybeBackup env j d = (if BackupEnabled (config j) then createBackup env (config j) d else (None, d))"

text \<open>The index after the fingerprints of the articles \<open>as\<close> have been recorded.\<close>

definition addHashes :: "string set \<Rightarrow> Article list \<Rightarrow> string set" where
  "addHashes hashes as = hashes \<union> ContentHash ` set as"

text \<open>The articles handed to a sequence of store operations, in call order.\<close>

fun allArticles :: "(IOEnv \<times> Op) list \<Rightarrow> Article list" where
  "allArticles [] = []"
| "allArticles ((env, op) # rest) = opArticles op @ allArticles rest"

text \<open>
  No system call on the output file fails during the operation; the backup that precedes
  the write may fail in any way.
\<close>

definition writesOk :: "IOEnv \<Rightarrow> bool" where
  "writesOk env =
     (\<not> openFails env \<and> writeFault env = WriteOk \<and> \<not> flushFails env \<and> noBatchFaults env)"


subsection \<open>Retention of the greatest names\<close>






subsection \<open>Example decoder and a long article\<close>

text \<open>A decoder that knows the records of the articles \<open>as\<close> and nothing else.\<close>

definition tableUnmarshal :: "Article list \<Rightarrow> string \<Rightarrow> Article option" where
  "tableUnmarshal as line = find (\<lambda>a. jsonMarshal a = line) as"

text \<open>An article whose body is one word of 70000 bytes.\<close>

definition bigArticle :: Article where
  "bigArticle = \<lparr> URL = ''https://x.app/posts/long/'', Title = ''Long'',
     Content = replicate 70000 (CHR ''a''), PlainText = replicate 70000 (CHR ''a''),
     Author = [], PublishedDate = None,
     ScrapedAt = ''2024-01-15T11:00:00Z'', WordCount = 1, ContentHash = ''h-long'' \<rparr>"

section \<open>Properties of the URL filter\<close>

lemma rems_suffix: "u \<in> set (rems r t) \<Longrightarrow> suffix u t"
proof (induction r arbitrary: t u)
  case (Lit l)
  then show ?case by (auto split: if_splits simp: suffix_drop)
next
  case (Many1 c)
  then show ?case by (auto simp: suffix_drop)
next
  case (Cat a b)
  then show ?case by simp (meson suffix_order.trans)
next
  case (Alt a b)
  then show ?case by auto
next
  case EndText
  then show ?case by (auto split: if_splits)
qed

lemma anyMatch_iff: "anyMatch ps url \<longleftrightarrow> (\<exists>p \<in> set ps. MatchString p url)"
  by (induction ps) auto

lemma MatchString_iff: "MatchString r s \<longleftrightarrow> (\<exists>t. suffix t s \<and> rems r t \<noteq> [])"
  by (auto simp: MatchString_def list_ex_iff)

lemma rems_nonempty_iff: "rems r t \<noteq> [] \<longleftrightarrow> (\<exists>u. u \<in> set (rems r t))"
  by (cases "rems r t") auto

lemma rems_Cat_mem:
  "u \<in> set (rems (Cat a b) t) \<longleftrightarrow> (\<exists>v \<in> set (rems a t). u \<in> set (rems b v))"
  by auto

lemma rems_Lit_End: "u \<in> set (rems (Cat (Lit l) EndText) t) \<Longrightarrow> t = l"
proof -
  assume "u \<in> set (rems (Cat (Lit l) EndText) t)"
  then have p: "prefix l t" and d: "drop (length l) t = []"
    by (auto split: if_splits)
  from p obtain z where "t = l @ z" by (auto simp: prefix_def)
  with d show "t = l" by simp
qed

lemma rems_tail_slash:
  assumes "u \<in> set (rems (Cat a (Cat (Lit ''/'') EndText)) t)"
  shows "suffix ''/'' t"
proof -
  from assms obtain v where v: "v \<in> set (rems a t)"
      "u \<in> set (rems (Cat (Lit ''/'') EndText) v)"
    by (subst (asm) rems_Cat_mem) blast
  then have "v = ''/''" using rems_Lit_End by blast
  with v(1) show ?thesis using rems_suffix by blast
qed

lemma rems_Cat_assoc:
  "u \<in> set (rems (Cat a (Cat b c)) t) \<longleftrightarrow> u \<in> set (rems (Cat (Cat a b) c) t)"
  by auto

lemma listPatterns_slash:
  assumes "anyMatch listPatterns url"
  shows "suffix ''/'' url"
proof -
  from assms obtain p t u where p: "p \<in> set listPatterns" and t: "suffix t url"
      and u: "u \<in> set (rems p t)"
    unfolding anyMatch_iff MatchString_iff rems_nonempty_iff by blast
  from p have "p = Cat (Lit ''/posts/'') EndText
      \<or> p = Cat (Lit ''/posts/page/'') (Cat (Many1 Digit) (Cat (Lit ''/'') EndText))
      \<or> p = Cat (Lit ''/'') EndText"
    by (simp add: listPatterns_def)
  then have "suffix ''/'' t"
  proof (elim disjE)
    assume "p = Cat (Lit ''/posts/'') EndText"
    with u have "t = ''/posts/''" using rems_Lit_End by blast
    then show ?thesis by (simp add: suffix_def)
  next
    assume "p = Cat (Lit ''/posts/page/'') (Cat (Many1 Digit) (Cat (Lit ''/'') EndText))"
    with u have "u \<in> set (rems (Cat (Cat (Lit ''/posts/page/'') (Many1 Digit))
        (Cat (Lit ''/'') EndText)) t)"
      by (simp only: rems_Cat_assoc)
    then show ?thesis by (rule rems_tail_slash)
  next
    assume "p = Cat (Lit ''/'') EndText"
    with u have "t = ''/''" using rems_Lit_End by blast
    then show ?thesis by simp
  qed
  with t show ?thesis by (meson suffix_order.trans)
qed

lemma static_asset_excluded:
  assumes "ext \<in> set staticExts" and "HasSuffix url (''.'' @ ext)"
  shows "anyMatch (excludePatterns NewURLFilter) url"
proof -
  have m: "rems (Cat (Lit ''.'') (Cat staticExt EndText)) (''.'' @ ext) \<noteq> []"
    using assms(1) by (auto simp: staticExts_def staticExt_def)
  have "MatchString (Cat (Lit ''.'') (Cat staticExt EndText)) url"
    unfolding MatchString_iff using assms(2) m by (auto simp: HasSuffix_def)
  then show ?thesis
    unfolding anyMatch_iff by (auto simp: NewURLFilter_def)
qed

lemma static_asset_not_list:
  assumes "ext \<in> set staticExts" and "HasSuffix url (''.'' @ ext)"
  shows "\<not> anyMatch listPatterns url"
proof
  assume "anyMatch listPatterns url"
  then have "suffix ''/'' url" by (rule listPatterns_slash)
  then obtain a where a: "url = a @ ''/''" by (auto simp: suffix_def)
  from assms(2) obtain b where b: "url = b @ ''.'' @ ext"
    by (auto simp: HasSuffix_def suffix_def)
  from assms(1) have "ext \<noteq> [] \<and> last ext \<noteq> CHR ''/''" by (auto simp: staticExts_def)
  then have "last url \<noteq> CHR ''/''" using b by simp
  with a show False by simp
qed

text \<open>
  Claim C3. A URL that matches an exclusion pattern of a URL filter is never an article
  page for it, whatever the article patterns say, so its type is never \<open>article\<close>. For
  the filter the scraper builds, a URL ending in a dot and one of the static-asset
  extensions jpg, jpeg, png, gif, pdf, css, js has the type \<open>other\<close>.
\<close>

theorem exclusion_precedence:
  "(\<forall>(uf::URLFilter) url. anyMatch (excludePatterns uf) url \<longrightarrow>
       \<not> IsArticlePage uf url \<and> GetURLType uf url \<noteq> ''article'')
   \<and> (\<forall>url ext. ext \<in> set staticExts \<and> HasSuffix url (''.'' @ ext) \<longrightarrow>
       \<not> IsArticlePage NewURLFilter url \<and> GetURLType NewURLFilter url = ''other'')"
proof (intro conjI allI impI)
  fix uf :: URLFilter and url
  assume "anyMatch (excludePatterns uf) url"
  then show "\<not> IsArticlePage uf url" by (simp add: IsArticlePage_def)
  then show "GetURLType uf url \<noteq> ''article''" by (simp add: GetURLType_def)
next
  fix url ext
  assume h: "ext \<in> set staticExts \<and> HasSuffix url (''.'' @ ext)"
  then have "anyMatch (excludePatterns NewURLFilter) url"
    using static_asset_excluded [of ext url] by blast
  then show na: "\<not> IsArticlePage NewURLFilter url"
    by (simp add: IsArticlePage_def)
  from h have "\<not> anyMatch listPatterns url"
    using static_asset_not_list [of ext url] by blast
  then have "\<not> IsListPage NewURLFilter url"
    by (simp add: IsListPage_def)
  with na show "GetURLType NewURLFilter url = ''other''" by (simp add: GetURLType_def)
qed

theorem exclusion_precedence_witness:
  "anyMatch (excludePatterns NewURLFilter) ''https://x.app/tags/posts/foo/''
   \<and> anyMatch (articlePatterns NewURLFilter) ''https://x.app/tags/posts/foo/''
   \<and> \<not> IsArticlePage NewURLFilter ''https://x.app/tags/posts/foo/''
   \<and> ''jpg'' \<in> set staticExts \<and> HasSuffix ''https://x.app/posts/photo.jpg'' (''.'' @ ''jpg'')
   \<and> GetURLType NewURLFilter ''https://x.app/posts/photo.jpg'' = ''other''"
proof -
  have a: "anyMatch (excludePatterns NewURLFilter) ''https://x.app/tags/posts/foo/''"
    by code_simp
  have b: "anyMatch (articlePatterns NewURLFilter) ''https://x.app/tags/posts/foo/''"
    by code_simp
  have c: "''jpg'' \<in> set staticExts \<and> HasSuffix ''https://x.app/posts/photo.jpg'' (''.'' @ ''jpg'')"
    by code_simp
  from exclusion_precedence a c b show ?thesis by blast
qed


section \<open>Properties of the collector's scope check\<close>

lemma anyExcluded_iff: "anyExcluded ps url \<longleftrightarrow> (\<exists>p \<in> set ps. matchesPattern url p)"
  by (induction ps) auto

lemma anyDomainContained_iff:
  "anyDomainContained ds url \<longleftrightarrow> (\<exists>dm \<in> set ds. Contains url dm)"
  by (induction ds) auto

lemma IsAllowedURL_iff:
  "IsAllowedURL cfg url \<longleftrightarrow>
     (\<forall>p \<in> set (ExcludePatterns cfg). \<not> matchesPattern url p)
     \<and> (\<exists>dm \<in> set (AllowedDomains cfg). Contains url dm)"
  by (auto simp: IsAllowedURL_def anyExcluded_iff anyDomainContained_iff)

text \<open>
  Claim C7, at the input where the code leaves it. With the configuration of the
  repository, \<open>IsAllowedURL\<close> accepts a URL whose host is \<open>evil.example\<close>, a host outside
  the allowed domains, because the allowed domain occurs in the path; no exclusion
  pattern matches the URL, and the scraper's own check \<open>isValidInternalLink\<close>, which
  compares the host, rejects it.
\<close>

theorem IsAllowedURL_foreign_host:
  "IsAllowedURL siteTarget ''https://evil.example/yamada-tech-memo.netlify.app/'' = True
   \<and> url_Host ''https://evil.example/yamada-tech-memo.netlify.app/'' = Some ''evil.example''
   \<and> ''evil.example'' \<notin> set (AllowedDomains siteTarget)
   \<and> \<not> anyExcluded (ExcludePatterns siteTarget)
         ''https://evil.example/yamada-tech-memo.netlify.app/''
   \<and> isValidInternalLink siteTarget ''https://evil.example/yamada-tech-memo.netlify.app/'' = False"
  by code_simp

section \<open>Properties of link discovery\<close>

lemma Contains_iff_sublist: "Contains s sub \<longleftrightarrow> sublist sub s"
  by (induction s) (auto simp: sublist_Cons_right)

lemma Contains_posts_page: "Contains u ''/posts/page/'' \<Longrightarrow> Contains u ''/page/''"
proof -
  assume "Contains u ''/posts/page/''"
  then have "sublist ''/posts/page/'' u" by (simp add: Contains_iff_sublist)
  moreover have "sublist ''/page/'' ''/posts/page/''"
    unfolding sublist_def by (rule exI [of _ "''/posts''"], rule exI [of _ "[]"]) simp
  ultimately have "sublist ''/page/'' u" by (meson sublist_order.order.trans)
  then show ?thesis by (simp add: Contains_iff_sublist)
qed

lemma linkStep_inv:
  assumes "\<forall>u. snd st u \<longleftrightarrow> u \<in> set (fst st)" and "distinct (fst st)"
  shows "(\<forall>u. snd (linkStep lib base st el) u \<longleftrightarrow> u \<in> set (fst (linkStep lib base st el)))
    \<and> distinct (fst (linkStep lib base st el))
    \<and> set (fst (linkStep lib base st el)) = set (fst st) \<union> {u. candidate lib base el u}"
  using assms Contains_posts_page
  by (auto simp: linkStep_def Let_def candidate_def linkAccepted_def)

lemma foldl_linkStep_inv:
  assumes "\<forall>u. snd st u \<longleftrightarrow> u \<in> set (fst st)" and "distinct (fst st)"
  shows "(\<forall>u. snd (foldl (linkStep lib base) st els) u \<longleftrightarrow> u \<in> set (fst (foldl (linkStep lib base) st els)))
    \<and> distinct (fst (foldl (linkStep lib base) st els))
    \<and> set (fst (foldl (linkStep lib base) st els)) = set (fst st) \<union> {u. \<exists>el \<in> set els. candidate lib base el u}"
  using assms
proof (induction els arbitrary: st)
  case Nil
  then show ?case by simp
next
  case (Cons el els)
  from linkStep_inv [OF Cons.prems, of lib base el]
  have a: "\<forall>u. snd (linkStep lib base st el) u \<longleftrightarrow> u \<in> set (fst (linkStep lib base st el))"
    and b: "distinct (fst (linkStep lib base st el))"
    and c: "set (fst (linkStep lib base st el)) = set (fst st) \<union> {u. candidate lib base el u}"
    by blast+
  from Cons.IH [OF a b] c show ?case by auto
qed

text \<open>
  Claim C8. The list \<open>ExtractLinks\<close> returns holds exactly the non-empty absolute URLs of
  the page's anchors (with a non-empty reference) that either contain \<open>/posts/\<close>, end
  with \<open>/\<close>, do not end with \<open>/posts/\<close> and do not contain \<open>/page/\<close>, or contain
  \<open>/page/\<close>; and no URL occurs in it twice.
\<close>

theorem ExtractLinks_accepts_exactly:
  "set (ExtractLinks lib e) =
     {u. \<exists>el \<in> set (ForEach e ''a[href]'').
           ElAttr el ''href'' \<noteq> [] \<and> u = resolveURL lib (RequestURL e) (ElAttr el ''href'') \<and> u \<noteq> []
           \<and> ((Contains u ''/posts/'' \<and> HasSuffix u ''/'' \<and> \<not> HasSuffix u ''/posts/''
                 \<and> \<not> Contains u ''/page/'')
               \<or> Contains u ''/page/'')}
   \<and> distinct (ExtractLinks lib e)"
proof -
  have "(\<forall>u. snd ([], (\<lambda>_. False)) u \<longleftrightarrow> u \<in> set (fst (([]::string list), (\<lambda>_::string. False))))" by simp
  moreover have "distinct (fst (([]::string list), (\<lambda>_::string. False)))" by simp
  ultimately show ?thesis
    using foldl_linkStep_inv [of "([], (\<lambda>_. False))" lib "RequestURL e" "ForEach e ''a[href]''"]
    unfolding ExtractLinks_def candidate_def linkAccepted_def by simp
qed

theorem ExtractLinks_accepts_exactly_witness:
  "ExtractLinks exampleLib listingPage = [''https://x.app/posts/a/'', ''https://x.app/posts/page/2/'']
   \<and> distinct (ExtractLinks exampleLib listingPage)"
proof -
  have "ExtractLinks exampleLib listingPage
      = [''https://x.app/posts/a/'', ''https://x.app/posts/page/2/'']"
    by code_simp
  with ExtractLinks_accepts_exactly [of exampleLib listingPage] show ?thesis by blast
qed

section \<open>Properties of article extraction\<close>

lemma ExtractArticle_visited_grows:
  "visitedURLs s u \<Longrightarrow> visitedURLs (snd (ExtractArticle lib clock s e)) u"
  by (simp add: ExtractArticle_def Let_def)

lemma ExtractArticle_records:
  "visitedURLs (snd (ExtractArticle lib clock s e)) (RequestURL e)"
  by (simp add: ExtractArticle_def Let_def)

lemma ExtractArticle_revisit:
  "visitedURLs s (RequestURL e) \<Longrightarrow> ExtractArticle lib clock s e = (None, s)"
  by (simp add: ExtractArticle_def Let_def)

lemma extractAll_visited_grows:
  "visitedURLs s u \<Longrightarrow> visitedURLs (snd (extractAll lib s calls)) u"
proof (induction calls arbitrary: s)
  case Nil
  then show ?case by simp
next
  case (Cons c calls)
  obtain clock e where c: "c = (clock, e)" by (cases c)
  from Cons.prems have "visitedURLs (snd (ExtractArticle lib clock s e)) u"
    by (rule ExtractArticle_visited_grows)
  then have "visitedURLs (snd (extractAll lib (snd (ExtractArticle lib clock s e)) calls)) u"
    by (rule Cons.IH)
  then show ?case by (simp add: c case_prod_unfold Let_def)
qed

lemma extractAll_visited_none:
  "visitedURLs s u \<Longrightarrow> producedFor u (fst (extractAll lib s calls)) calls = 0"
proof (induction calls arbitrary: s)
  case Nil
  then show ?case by (simp add: producedFor_def)
next
  case (Cons c calls)
  obtain clock e where c: "c = (clock, e)" by (cases c)
  obtain r s1 where r: "ExtractArticle lib clock s e = (r, s1)" by (cases "ExtractArticle lib clock s e")
  from Cons.prems have v1: "visitedURLs s1 u"
    using ExtractArticle_visited_grows [of s u lib clock e] r by simp
  have "RequestURL e = u \<Longrightarrow> r = None"
    using ExtractArticle_revisit [of s e lib clock] Cons.prems r by simp
  moreover from Cons.IH [OF v1] have "producedFor u (fst (extractAll lib s1 calls)) calls = 0" .
  ultimately show ?case
    by (auto simp: c r producedFor_def split: prod.splits)
qed

lemma extractAll_at_most_once:
  "producedFor u (fst (extractAll lib s calls)) calls \<le> 1"
proof (induction calls arbitrary: s)
  case Nil
  then show ?case by (simp add: producedFor_def)
next
  case (Cons c calls)
  obtain clock e where c: "c = (clock, e)" by (cases c)
  obtain r s1 where r: "ExtractArticle lib clock s e = (r, s1)" by (cases "ExtractArticle lib clock s e")
  show ?case
  proof (cases "RequestURL e = u")
    case True
    have "visitedURLs s1 u" using ExtractArticle_records [of lib clock s e] r True by simp
    then have "producedFor u (fst (extractAll lib s1 calls)) calls = 0"
      by (rule extractAll_visited_none)
    then show ?thesis by (auto simp: c r producedFor_def split: prod.splits)
  next
    case False
    with Cons.IH [of s1] show ?thesis by (auto simp: c r producedFor_def split: prod.splits)
  qed
qed

text \<open>
  Claim C9. A call of \<open>ExtractArticle\<close>, and a run of such calls on one scraper, keeps
  every URL of the visited set in it; after a call the URL of its page is in the set;
  a call for a URL that is already in the set returns no article and leaves the article
  list as it is; and in a run of calls, at most one call per URL returns an article.
\<close>

theorem visited_set_invariant:
  "(\<forall>u. visitedURLs s u \<longrightarrow> visitedURLs (snd (ExtractArticle lib clock s e)) u)
   \<and> (\<forall>u. visitedURLs s u \<longrightarrow> visitedURLs (snd (extractAll lib s calls)) u)
   \<and> visitedURLs (snd (ExtractArticle lib clock s e)) (RequestURL e)
   \<and> (visitedURLs s (RequestURL e) \<longrightarrow>
        fst (ExtractArticle lib clock s e) = None
        \<and> articles (snd (ExtractArticle lib clock s e)) = articles s)
   \<and> (\<forall>u. producedFor u (fst (extractAll lib s calls)) calls \<le> 1)"
  using ExtractArticle_visited_grows extractAll_visited_grows ExtractArticle_records
    ExtractArticle_revisit extractAll_at_most_once
  by (auto simp del: split_paired_All)


theorem visited_set_invariant_witness:
  "visitedURLs (snd (ExtractArticle exampleLib ''t1'' (NewScraper exampleSelectors) postPage))
     (RequestURL postPage)
   \<and> fst (ExtractArticle exampleLib ''t1'' (NewScraper exampleSelectors) postPage) \<noteq> None
   \<and> fst (ExtractArticle exampleLib ''t2''
        (snd (ExtractArticle exampleLib ''t1'' (NewScraper exampleSelectors) postPage)) postPage) = None
   \<and> producedFor (RequestURL postPage)
        (fst (extractAll exampleLib (NewScraper exampleSelectors)
           [(''t1'', postPage), (''t2'', postPage)]))
        [(''t1'', postPage), (''t2'', postPage)] \<le> 1"
proof -
  have a: "fst (ExtractArticle exampleLib ''t1'' (NewScraper exampleSelectors) postPage) \<noteq> None"
    by code_simp
  have b: "visitedURLs (snd (ExtractArticle exampleLib ''t1'' (NewScraper exampleSelectors) postPage))
     (RequestURL postPage)"
    by code_simp
  from visited_set_invariant [of "snd (ExtractArticle exampleLib ''t1'' (NewScraper exampleSelectors) postPage)"
      exampleLib "''t2''" postPage "[]"] b
  have c: "fst (ExtractArticle exampleLib ''t2''
        (snd (ExtractArticle exampleLib ''t1'' (NewScraper exampleSelectors) postPage)) postPage) = None"
    by blast
  from visited_set_invariant [of "NewScraper exampleSelectors" exampleLib "''t1''" postPage
      "[(''t1'', postPage), (''t2'', postPage)]"]
  have d: "producedFor (RequestURL postPage)
        (fst (extractAll exampleLib (NewScraper exampleSelectors)
           [(''t1'', postPage), (''t2'', postPage)]))
        [(''t1'', postPage), (''t2'', postPage)] \<le> 1"
    by blast
  from a b c d show ?thesis by blast
qed

















section \<open>Properties of the store\<close>

text \<open>
  Claim C10. When the output file does not exist, \<open>Load\<close> returns the empty list and no
  error; a store that \<open>NewJSONLStorage\<close> constructs over the missing file has an empty
  fingerprint index, so \<open>Exists\<close> answers false (with no error) for every fingerprint;
  and the construction succeeds whenever the directories can be created.
\<close>

theorem Load_missing_file:
  "outFile d = None \<longrightarrow>
     Load unmarshal env d = Inr []
     \<and> (\<forall>j. NewJSONLStorage unmarshal env cfg d = Inr j \<longrightarrow>
           existingHashes j = {} \<and> (\<forall>h. Exists j h = (False, None)))
     \<and> (\<not> mkdirOutFails env \<and> \<not> (BackupEnabled cfg \<and> mkdirBackupFails env) \<longrightarrow>
           (\<exists>j. NewJSONLStorage unmarshal env cfg d = Inr j))"
  by (auto simp: Load_def NewJSONLStorage_def loadExistingHashes_def Exists_def Let_def
      split: if_splits)

theorem Load_missing_file_witness:
  "outFile emptyDisk = None
   \<and> Load (\<lambda>line. None) (quietEnv ''20240115_110000'') emptyDisk = Inr []
   \<and> (\<exists>j. NewJSONLStorage (\<lambda>line. None) (quietEnv ''20240115_110000'') exampleConfig emptyDisk = Inr j
         \<and> Exists j ''h-a'' = (False, None))"
proof -
  have a: "outFile emptyDisk = None" by (simp add: emptyDisk_def)
  have b: "\<not> mkdirOutFails (quietEnv ''20240115_110000'')
      \<and> \<not> (BackupEnabled exampleConfig \<and> mkdirBackupFails (quietEnv ''20240115_110000''))"
    by (simp add: quietEnv_def)
  from Load_missing_file [where d=emptyDisk and unmarshal="\<lambda>line. None"
      and env="quietEnv ''20240115_110000''" and cfg=exampleConfig] a b
  show ?thesis by blast
qed

lemma cleanup_outFile: "outFile (snd (cleanupOldBackups env cfg d)) = outFile d"
  by (simp add: cleanupOldBackups_def Let_def)

lemma createBackup_outFile: "outFile (snd (createBackup env cfg d)) = outFile d"
  by (auto simp: createBackup_def Let_def cleanup_outFile split: option.splits copy_fault.splits)

lemma cleanup_no_panic: "0 \<le> MaxBackupFiles cfg \<Longrightarrow> fst (cleanupOldBackups env cfg d) \<noteq> Some SliceBoundsPanic"
  by (simp add: cleanupOldBackups_def Let_def)

lemma createBackup_no_panic: "0 \<le> MaxBackupFiles cfg \<Longrightarrow> fst (createBackup env cfg d) \<noteq> Some SliceBoundsPanic"
  by (auto simp: createBackup_def Let_def cleanup_no_panic split: option.splits copy_fault.splits)

lemma contents_appendOut: "contents (appendOut d bytes) = contents d @ bytes"
  by (simp add: contents_def appendOut_def)

lemma contents_createBackup: "contents (snd (createBackup env cfg d)) = contents d"
  by (simp add: contents_def createBackup_outFile)

lemma maybeBackup_contents: "contents (snd (maybeBackup env j d)) = contents d"
  by (simp add: maybeBackup_def contents_createBackup)

lemma maybeBackup_no_panic: "retentionOk (config j) \<Longrightarrow> fst (maybeBackup env j d) \<noteq> Some SliceBoundsPanic"
  by (simp add: maybeBackup_def retentionOk_def createBackup_no_panic)

lemma Save_duplicate: "ContentHash a \<in> existingHashes j \<Longrightarrow> Save env j d a = (None, j, d)"
  by (simp add: Save_def)

lemma Save_unfold:
  "ContentHash a \<notin> existingHashes j \<Longrightarrow> Save env j d a =
     (let b = maybeBackup env j d in
         if fst b = Some SliceBoundsPanic then (Some SliceBoundsPanic, j, snd b)
         else if openFails env then (Some OpenError, j, snd b)
         else
           (let d1 = appendOut (snd b) [] in
            case writeFault env of
              MarshalFails \<Rightarrow> (Some EncodeError, j, d1)
            | WriteFails k \<Rightarrow> (Some WriteError, j, appendOut d1 (take k (jsonMarshal a)))
            | NewlineFails \<Rightarrow> (Some NewlineError, j, appendOut d1 (jsonMarshal a))
            | WriteOk \<Rightarrow>
                (None,
                 j\<lparr>existingHashes := insert (ContentHash a) (existingHashes j)\<rparr>,
                 appendOut d1 (jsonMarshal a @ [CHR 0x0A]))))"
  by (simp add: Save_def maybeBackup_def)

lemma Save_ok:
  assumes "ContentHash a \<notin> existingHashes j" "retentionOk (config j)" "\<not> openFails env"
    "writeFault env = WriteOk"
  shows "fst (Save env j d a) = None"
    and "fst (snd (Save env j d a)) = j\<lparr>existingHashes := insert (ContentHash a) (existingHashes j)\<rparr>"
    and "contents (snd (snd (Save env j d a))) = contents d @ jsonMarshal a @ [CHR 0x0A]"
  using assms maybeBackup_no_panic [where j=j and env=env and d=d]
  by (simp_all add: Save_unfold Let_def contents_appendOut maybeBackup_contents)

lemma Save_fails:
  assumes "ContentHash a \<notin> existingHashes j" "openFails env \<or> writeFault env \<noteq> WriteOk"
  shows "fst (Save env j d a) \<noteq> None" and "fst (snd (Save env j d a)) = j"
  using assms
  by (auto simp: Save_unfold Let_def split: write_fault.splits)

text \<open>
  Claim C5, as the code has it. \<open>Save\<close> returns \<open>nil\<close> for an article whose
  fingerprint is in the index, and leaves store and disk as they are; it returns \<open>nil\<close>
  as well when a new fingerprint is appended, and then the fingerprint is in the index
  and the output file has grown by the record and a line feed; it returns an error, and
  leaves the index as it is, when opening, encoding or writing fails. The duplicate is
  told from the success only through \<open>Exists\<close> (the index), not through the result.
\<close>

theorem Save_outcomes:
  "(ContentHash a \<in> existingHashes j \<longrightarrow> Save env j d a = (None, j, d))
   \<and> (ContentHash a \<notin> existingHashes j \<and> retentionOk (config j) \<and> \<not> openFails env
        \<and> writeFault env = WriteOk \<longrightarrow>
          fst (Save env j d a) = None
          \<and> ContentHash a \<in> existingHashes (fst (snd (Save env j d a)))
          \<and> contents (snd (snd (Save env j d a))) = contents d @ jsonMarshal a @ [CHR 0x0A])
   \<and> (ContentHash a \<notin> existingHashes j \<and> (openFails env \<or> writeFault env \<noteq> WriteOk) \<longrightarrow>
          fst (Save env j d a) \<noteq> None \<and> fst (snd (Save env j d a)) = j)
   \<and> fst (Exists j (ContentHash a)) = (ContentHash a \<in> existingHashes j)"
  using Save_duplicate [where j=j and a=a and env=env and d=d]
    Save_ok [where j=j and a=a and env=env and d=d]
    Save_fails [where j=j and a=a and env=env and d=d]
  by (simp add: Exists_def)

theorem Save_outcomes_witness:
  "Save (quietEnv ''20240115_110000'') (exampleStore\<lparr>existingHashes := {''h-a''}\<rparr>) emptyDisk articleA2
     = (None, exampleStore\<lparr>existingHashes := {''h-a''}\<rparr>, emptyDisk)
   \<and> fst (Save (quietEnv ''20240115_110000'') exampleStore emptyDisk articleA) = None
   \<and> contents (snd (snd (Save (quietEnv ''20240115_110000'') exampleStore emptyDisk articleA)))
       = jsonMarshal articleA @ [CHR 0x0A]
   \<and> fst (Save ((quietEnv ''20240115_110000'')\<lparr>openFails := True\<rparr>) exampleStore emptyDisk articleA) \<noteq> None"
proof -
  have a: "ContentHash articleA2 \<in> existingHashes (exampleStore\<lparr>existingHashes := {''h-a''}\<rparr>)"
    by code_simp
  have b: "ContentHash articleA \<notin> existingHashes exampleStore \<and> retentionOk (config exampleStore)
      \<and> \<not> openFails (quietEnv ''20240115_110000'') \<and> writeFault (quietEnv ''20240115_110000'') = WriteOk"
    by code_simp
  have c: "ContentHash articleA \<notin> existingHashes exampleStore
      \<and> (openFails ((quietEnv ''20240115_110000'')\<lparr>openFails := True\<rparr>)
          \<or> writeFault ((quietEnv ''20240115_110000'')\<lparr>openFails := True\<rparr>) \<noteq> WriteOk)"
    by code_simp
  have e: "contents emptyDisk = []" by code_simp
  from Save_outcomes [where j="exampleStore\<lparr>existingHashes := {''h-a''}\<rparr>" and a=articleA2
      and env="quietEnv ''20240115_110000''" and d=emptyDisk] a
  have 1: "Save (quietEnv ''20240115_110000'') (exampleStore\<lparr>existingHashes := {''h-a''}\<rparr>) emptyDisk articleA2
     = (None, exampleStore\<lparr>existingHashes := {''h-a''}\<rparr>, emptyDisk)"
    by blast
  from Save_outcomes [where j=exampleStore and a=articleA and env="quietEnv ''20240115_110000''"
      and d=emptyDisk] b e
  have 2: "fst (Save (quietEnv ''20240115_110000'') exampleStore emptyDisk articleA) = None
    \<and> contents (snd (snd (Save (quietEnv ''20240115_110000'') exampleStore emptyDisk articleA)))
       = jsonMarshal articleA @ [CHR 0x0A]"
    by simp
  from Save_outcomes [where j=exampleStore and a=articleA
      and env="(quietEnv ''20240115_110000'')\<lparr>openFails := True\<rparr>" and d=emptyDisk] c
  have 3: "fst (Save ((quietEnv ''20240115_110000'')\<lparr>openFails := True\<rparr>) exampleStore emptyDisk articleA) \<noteq> None"
    by blast
  from 1 2 3 show ?thesis by blast
qed

text \<open>
  The claim as the specification words it fails: saving an article and then a second
  article with the same fingerprint gives the same result \<open>nil\<close> twice, once for the
  append and once for the skipped duplicate.
\<close>

theorem Save_duplicate_same_result_counterexample:
  "ContentHash articleA \<notin> existingHashes exampleStore
   \<and> fst (Save (quietEnv ''20240115_110000'') exampleStore emptyDisk articleA) = None
   \<and> ContentHash articleA2
        \<in> existingHashes (fst (snd (Save (quietEnv ''20240115_110000'') exampleStore emptyDisk articleA)))
   \<and> fst (Save (quietEnv ''20240115_110001'')
          (fst (snd (Save (quietEnv ''20240115_110000'') exampleStore emptyDisk articleA)))
          (snd (snd (Save (quietEnv ''20240115_110000'') exampleStore emptyDisk articleA)))
          articleA2) = None"
  by code_simp

lemma addHashes_Nil: "addHashes h [] = h"
  by (simp add: addHashes_def)

lemma addHashes_Cons: "addHashes h (a # as) = addHashes (insert (ContentHash a) h) as"
  by (auto simp: addHashes_def)

lemma addHashes_Cons_dup: "ContentHash a \<in> h \<Longrightarrow> addHashes h (a # as) = addHashes h as"
  by (auto simp: addHashes_def)

lemma addHashes_append: "addHashes h (xs @ ys) = addHashes (addHashes h xs) ys"
  by (auto simp: addHashes_def)

lemma recordLines_append: "recordLines (xs @ ys) = recordLines xs @ recordLines ys"
  by (simp add: recordLines_def)

lemma firstNew_append: "firstNew h (xs @ ys) = firstNew h xs @ firstNew (addHashes h xs) ys"
  by (induction xs arbitrary: h) (simp_all add: addHashes_Nil addHashes_Cons insert_absorb)


lemma batchLoop_ok:
  assumes "\<forall>i. f i = WriteOk"
  shows "fst (batchLoop f i as (h, buf, sv, sk)) = addHashes h as
    \<and> fst (snd (batchLoop f i as (h, buf, sv, sk))) = buf @ recordLines (firstNew h as)"
proof (induction as arbitrary: i h buf sv sk)
  case Nil
  then show ?case by (simp add: addHashes_Nil recordLines_def)
next
  case (Cons a as)
  show ?case
  proof (cases "ContentHash a \<in> h")
    case True
    then show ?thesis using Cons.IH by (simp add: addHashes_Cons_dup)
  next
    case False
    then show ?thesis using Cons.IH assms
      by (simp add: addHashes_Cons recordLines_def)
  qed
qed

lemma SaveBatch_unfold:
  "as \<noteq> [] \<Longrightarrow> SaveBatch env j d as =
        (let b = maybeBackup env j d in
         if fst b = Some SliceBoundsPanic then (Some SliceBoundsPanic, j, snd b)
         else if openFails env then (Some OpenError, j, snd b)
         else
           (let d1 = appendOut (snd b) [];
                st = batchLoop (batchFault env) 0 as (existingHashes j, [], 0, 0)
            in (None, j\<lparr>existingHashes := fst st\<rparr>,
                if flushFails env then d1 else appendOut d1 (fst (snd st)))))"
  by (simp add: SaveBatch_def maybeBackup_def)

lemma Save_step:
  assumes "retentionOk (config j)" "writesOk env"
  shows "fst (Save env j d a) = None
    \<and> config (fst (snd (Save env j d a))) = config j
    \<and> existingHashes (fst (snd (Save env j d a))) = addHashes (existingHashes j) [a]
    \<and> contents (snd (snd (Save env j d a))) = contents d @ recordLines (firstNew (existingHashes j) [a])"
proof (cases "ContentHash a \<in> existingHashes j")
  case True
  then show ?thesis
    by (simp add: Save_duplicate addHashes_Cons_dup addHashes_Nil recordLines_def)
next
  case False
  moreover from assms(2) have "\<not> openFails env" "writeFault env = WriteOk"
    by (simp_all add: writesOk_def)
  ultimately show ?thesis using Save_ok [where j=j and a=a and env=env and d=d] assms(1)
    by (simp add: addHashes_Cons addHashes_Nil recordLines_def)
qed

lemma SaveBatch_step:
  assumes "retentionOk (config j)" "writesOk env"
  shows "fst (SaveBatch env j d as) = None
    \<and> config (fst (snd (SaveBatch env j d as))) = config j
    \<and> existingHashes (fst (snd (SaveBatch env j d as))) = addHashes (existingHashes j) as
    \<and> contents (snd (snd (SaveBatch env j d as))) = contents d @ recordLines (firstNew (existingHashes j) as)"
proof (cases "as = []")
  case True
  then show ?thesis by (simp add: SaveBatch_def addHashes_Nil recordLines_def)
next
  case False
  from assms(2) have e: "\<not> openFails env" "\<not> flushFails env" "\<forall>i. batchFault env i = WriteOk"
    by (simp_all add: writesOk_def noBatchFaults_def)
  from batchLoop_ok [OF e(3), of 0 as "existingHashes j" "[]" 0 0]
  have b: "fst (batchLoop (batchFault env) 0 as (existingHashes j, [], 0, 0)) = addHashes (existingHashes j) as"
    "fst (snd (batchLoop (batchFault env) 0 as (existingHashes j, [], 0, 0))) = recordLines (firstNew (existingHashes j) as)"
    by simp_all
  show ?thesis
    using False e(1,2) b maybeBackup_no_panic [OF assms(1), of env d]
    by (simp add: SaveBatch_unfold Let_def contents_appendOut maybeBackup_contents)
qed

lemma applyOp_step:
  assumes "retentionOk (config j)" "writesOk env"
  shows "fst (applyOp env op j d) = None
    \<and> config (fst (snd (applyOp env op j d))) = config j
    \<and> existingHashes (fst (snd (applyOp env op j d))) = addHashes (existingHashes j) (opArticles op)
    \<and> contents (snd (snd (applyOp env op j d)))
        = contents d @ recordLines (firstNew (existingHashes j) (opArticles op))"
  using Save_step [OF assms] SaveBatch_step [OF assms] by (cases op) simp_all

lemma runOps_ok:
  assumes "retentionOk (config j)" "\<forall>(env, op) \<in> set ops. writesOk env"
  shows "existingHashes (fst (snd (runOps ops j d))) = addHashes (existingHashes j) (allArticles ops)
    \<and> contents (snd (snd (runOps ops j d)))
        = contents d @ recordLines (firstNew (existingHashes j) (allArticles ops))
    \<and> (\<forall>r \<in> set (fst (runOps ops j d)). r = None)"
  using assms
proof (induction ops arbitrary: j d)
  case Nil
  then show ?case by (simp add: addHashes_Nil recordLines_def)
next
  case (Cons x ops)
  obtain env op where x: "x = (env, op)" by (cases x)
  let ?r = "applyOp env op j d"
  from Cons.prems x have w: "writesOk env" by simp
  note st = applyOp_step [OF Cons.prems(1) w, of op d]
  from st have c: "retentionOk (config (fst (snd ?r)))" using Cons.prems(1) by simp
  from Cons.prems(2) have rest: "\<forall>(env, op) \<in> set ops. writesOk env" by simp
  note ih = Cons.IH [OF c rest, of "snd (snd ?r)"]
  show ?case
    using st ih
    by (simp add: x Let_def firstNew_append addHashes_append recordLines_append)
qed



section \<open>Properties of backup rotation\<close>

















section \<open>Properties of the round trip through the output file\<close>

lemma hexChars_nth: "n < 16 \<Longrightarrow> hexChars ! n \<in> set hexChars"
  by (rule nth_mem) (simp add: hexChars_def)

lemma hexChars_printable: "c \<in> set hexChars \<Longrightarrow> c \<noteq> CHR 0x0A \<and> c \<noteq> CHR 0x0D \<and> \<not> isSpace c"
  by (auto simp: hexChars_def isSpace_def)

lemma of_char_div16: "of_char (c::char) div 16 < (16::nat)"
proof -
  have "(of_char c :: nat) < 16 * 16" using nat_of_char_less_256 [of c] by simp
  then show ?thesis by (rule less_mult_imp_div_less)
qed

lemma jsonEscape_no_newline: "CHR 0x0A \<notin> set (jsonEscape c)"
proof -
  have a: "hexChars ! (of_char c div 16) \<noteq> CHR 0x0A"
    using hexChars_printable hexChars_nth of_char_div16 by blast
  have "(of_char c :: nat) mod 16 < 16" by simp
  then have b: "hexChars ! (of_char c mod 16) \<noteq> CHR 0x0A"
    using hexChars_printable hexChars_nth by blast
  show ?thesis using a b by (simp add: jsonEscape_def)
qed

lemma jsonString_no_newline: "CHR 0x0A \<notin> set (jsonString s)"
  using jsonEscape_no_newline by (auto simp: jsonString_def)

lemma showNat_digits: "set (showNat n) \<subseteq> set hexChars"
proof (induction n rule: showNat.induct)
  case (1 n)
  show ?case
  proof (cases "n < 10")
    case True
    then have "n < 16" by simp
    then have "hexChars ! n \<in> set hexChars" by (rule hexChars_nth)
    with True show ?thesis by (subst showNat.simps) simp
  next
    case False
    have "n mod 10 < 16" by (simp add: less_trans [OF mod_less_divisor])
    then have "hexChars ! (n mod 10) \<in> set hexChars" by (rule hexChars_nth)
    with False 1 show ?thesis by (subst showNat.simps) simp
  qed
qed

lemma showNat_no_newline: "CHR 0x0A \<notin> set (showNat n)"
  using showNat_digits [of n] hexChars_printable [of "CHR 0x0A"] by blast

lemma showInt_no_newline: "CHR 0x0A \<notin> set (showInt i)"
  using showNat_no_newline by (simp add: showInt_def)

lemma jsonKey_no_newline: "CHR 0x0A \<notin> set k \<Longrightarrow> CHR 0x0A \<notin> set (jsonKey k)"
  by (simp add: jsonKey_def)

lemma jsonMarshal_no_newline: "CHR 0x0A \<notin> set (jsonMarshal a)"
  using jsonString_no_newline showInt_no_newline
  by (simp add: jsonMarshal_def jsonKey_no_newline split: option.splits)

lemma length_jsonEscape: "1 \<le> length (jsonEscape c)"
  by (simp add: jsonEscape_def)

lemma length_concat_jsonEscape: "length s \<le> length (concat (map jsonEscape s))"
proof (induction s)
  case Nil
  then show ?case by simp
next
  case (Cons c s)
  with length_jsonEscape [of c] show ?case by simp
qed

lemma length_jsonString: "length s \<le> length (jsonString s)"
  using length_concat_jsonEscape [of s] by (simp add: jsonString_def)

lemma length_jsonMarshal: "length (Content a) \<le> length (jsonMarshal a)"
  using length_jsonString [of "Content a"] by (simp add: jsonMarshal_def)

lemma Split_no_sep: "sep \<notin> set l \<Longrightarrow> Split (l @ sep # rest) sep = l # Split rest sep"
  by (induction l) auto

lemma Split_last_line: "sep \<notin> set l \<Longrightarrow> Split (l @ [sep]) sep = [l, []]"
  using Split_no_sep [of sep l "[]"] by simp

lemma scanTokens_one_line: "CHR 0x0A \<notin> set l \<Longrightarrow> scanTokens (l @ [CHR 0x0A]) = [l]"
  by (simp add: scanTokens_def Split_last_line)

lemma scanLines_too_long:
  assumes "CHR 0x0A \<notin> set l" "maxScanTokenSize \<le> length l"
  shows "scanLines (l @ [CHR 0x0A]) = Inl ScanError"
  using assms by (simp add: scanLines_def scanTokens_one_line)

lemma outFile_appendOut: "outFile (appendOut d bytes) = Some (contents d @ bytes)"
  by (simp add: appendOut_def)

lemma Save_ok_outFile:
  assumes "ContentHash a \<notin> existingHashes j" "retentionOk (config j)" "\<not> openFails env"
    "writeFault env = WriteOk"
  shows "outFile (snd (snd (Save env j d a))) = Some (contents d @ jsonMarshal a @ [CHR 0x0A])"
  using assms maybeBackup_no_panic [where j=j and env=env and d=d]
  by (simp add: Save_unfold Let_def outFile_appendOut contents_appendOut maybeBackup_contents)

text \<open>
  Claim C2, at the input where the code leaves it. An article whose markup is 70000
  bytes long is saved to an empty store without error, and its record is in the output
  file; \<open>Load\<close> on that file returns an error and no article, although the decoder
  reads the record back: the record is one line of more than
  \<open>bufio.MaxScanTokenSize\<close> bytes, which the scanner of \<open>Load\<close> refuses.
\<close>

theorem Load_fails_on_long_record:
  "fst (Save (quietEnv ''20240115_110000'') exampleStore emptyDisk bigArticle) = None
   \<and> outFile (snd (snd (Save (quietEnv ''20240115_110000'') exampleStore emptyDisk bigArticle)))
       = Some (jsonMarshal bigArticle @ [CHR 0x0A])
   \<and> tableUnmarshal [bigArticle] (jsonMarshal bigArticle) = Some bigArticle
   \<and> Load (tableUnmarshal [bigArticle]) (quietEnv ''20240115_110005'')
        (snd (snd (Save (quietEnv ''20240115_110000'') exampleStore emptyDisk bigArticle)))
       = Inl ScanError"
proof -
  let ?env = "quietEnv ''20240115_110000''"
  let ?r = "Save ?env exampleStore emptyDisk bigArticle"
  have h: "ContentHash bigArticle \<notin> existingHashes exampleStore" "retentionOk (config exampleStore)"
      "\<not> openFails ?env" "writeFault ?env = WriteOk"
    by (simp_all add: bigArticle_def exampleStore_def exampleConfig_def retentionOk_def quietEnv_def)
  have e: "contents emptyDisk = []" by (simp add: contents_def emptyDisk_def)
  have 1: "fst ?r = None" using Save_ok(1) [OF h] .
  have 2: "outFile (snd (snd ?r)) = Some (jsonMarshal bigArticle @ [CHR 0x0A])"
    using Save_ok_outFile [OF h, of emptyDisk] e by simp
  have 3: "tableUnmarshal [bigArticle] (jsonMarshal bigArticle) = Some bigArticle"
    by (simp add: tableUnmarshal_def)
  have "length (Content bigArticle) = 70000" by (simp add: bigArticle_def)
  with length_jsonMarshal [of bigArticle] have "maxScanTokenSize \<le> length (jsonMarshal bigArticle)"
    by (simp add: maxScanTokenSize_def)
  with jsonMarshal_no_newline have "scanLines (jsonMarshal bigArticle @ [CHR 0x0A]) = Inl ScanError"
    by (rule scanLines_too_long)
  then have 4: "Load (tableUnmarshal [bigArticle]) (quietEnv ''20240115_110005'') (snd (snd ?r)) = Inl ScanError"
    using 2 by (simp add: Load_def quietEnv_def)
  from 1 2 3 4 show ?thesis by blast
qed

lemma jsonMarshal_ends:
  "jsonMarshal a \<noteq> [] \<and> hd (jsonMarshal a) = CHR ''{'' \<and> last (jsonMarshal a) = CHR ''}''"
  by (simp add: jsonMarshal_def)

lemma dropWhile_hd_id: "t \<noteq> [] \<Longrightarrow> \<not> P (hd t) \<Longrightarrow> dropWhile P t = t"
  by (cases t) auto

lemma TrimSpace_id:
  assumes "s \<noteq> []" "\<not> isSpace (hd s)" "\<not> isSpace (last s)"
  shows "TrimSpace s = s"
proof -
  have 1: "dropWhile isSpace s = s" using assms(1,2) by (rule dropWhile_hd_id)
  have "hd (rev s) = last s" using assms(1) by (simp add: hd_rev)
  with assms(3) have "\<not> isSpace (hd (rev s))" by simp
  moreover have "rev s \<noteq> []" using assms(1) by simp
  ultimately have 2: "dropWhile isSpace (rev s) = rev s" by (intro dropWhile_hd_id)
  show ?thesis by (simp only: TrimSpace_def 1 2 rev_rev_ident)
qed

lemma TrimSpace_jsonMarshal: "TrimSpace (jsonMarshal a) = jsonMarshal a"
  using jsonMarshal_ends [of a] by (intro TrimSpace_id) (simp_all add: isSpace_def)

lemma dropCR_jsonMarshal: "dropCR (jsonMarshal a) = jsonMarshal a"
  using jsonMarshal_ends [of a] by (simp add: dropCR_def)

lemma Split_recordLines: "Split (recordLines xs) (CHR 0x0A) = map jsonMarshal xs @ [[]]"
proof (induction xs)
  case Nil
  then show ?case by (simp add: recordLines_def)
next
  case (Cons a xs)
  have "recordLines (a # xs) = jsonMarshal a @ CHR 0x0A # recordLines xs"
    by (simp add: recordLines_def)
  then show ?case
    using Split_no_sep [OF jsonMarshal_no_newline, of a "recordLines xs"] Cons.IH by simp
qed

lemma scanTokens_recordLines: "scanTokens (recordLines xs) = map jsonMarshal xs"
  by (simp add: scanTokens_def Split_recordLines)

lemma scanLines_recordLines:
  assumes "\<forall>a \<in> set xs. length (jsonMarshal a) < maxScanTokenSize"
  shows "scanLines (recordLines xs) = Inr (map jsonMarshal xs)"
proof -
  have "\<not> list_ex (\<lambda>t. maxScanTokenSize \<le> length t) (map jsonMarshal xs)"
    using assms by (auto simp: list_ex_iff)
  moreover have "map dropCR (map jsonMarshal xs) = map jsonMarshal xs"
    by (simp add: dropCR_jsonMarshal)
  ultimately show ?thesis by (simp add: scanLines_def scanTokens_recordLines)
qed

lemma decodeLines_records:
  "\<forall>a \<in> set xs. unmarshal (jsonMarshal a) = Some a \<Longrightarrow>
     decodeLines unmarshal (map jsonMarshal xs) = xs"
  using jsonMarshal_ends by (induction xs) (simp_all add: TrimSpace_jsonMarshal)

lemma firstNew_subset: "set (firstNew h as) \<subseteq> set as"
  by (induction as arbitrary: h) auto

lemma recordLines_empty: "recordLines xs = [] \<Longrightarrow> xs = []"
  by (cases xs) (simp_all add: recordLines_def)

text \<open>
  The round trip for records that fit the scanner: from an absent or empty output file,
  after calls to \<open>Save\<close> and \<open>SaveBatch\<close> without a failing system call, \<open>Load\<close> returns
  the first article of each new fingerprint in append order, provided each record is
  shorter than \<open>bufio.MaxScanTokenSize\<close> and \<open>json.Unmarshal\<close> inverts \<open>json.Marshal\<close>
  on the saved articles.
\<close>

lemma Load_roundtrip_short_records:
  assumes "retentionOk (config j)" and "\<forall>(env, op) \<in> set ops. writesOk env"
    and "contents d = []" and "\<not> readOpenFails env'" and "\<not> readFails env'"
    and "\<forall>a \<in> set (allArticles ops). unmarshal (jsonMarshal a) = Some a
          \<and> length (jsonMarshal a) < maxScanTokenSize"
  shows "Load unmarshal env' (snd (snd (runOps ops j d)))
     = Inr (firstNew (existingHashes j) (allArticles ops))"
proof -
  let ?xs = "firstNew (existingHashes j) (allArticles ops)"
  let ?d = "snd (snd (runOps ops j d))"
  have c: "contents ?d = recordLines ?xs"
    using runOps_ok [OF assms(1,2), of d] assms(3) by simp
  have sub: "set ?xs \<subseteq> set (allArticles ops)" by (rule firstNew_subset)
  show ?thesis
  proof (cases "outFile ?d")
    case None
    then have "contents ?d = []" by (simp add: contents_def)
    with c have "?xs = []" using recordLines_empty by metis
    with None show ?thesis by (simp add: Load_def)
  next
    case (Some bytes)
    then have b: "bytes = recordLines ?xs" using c by (simp add: contents_def)
    have s: "scanLines (recordLines ?xs) = Inr (map jsonMarshal ?xs)"
      using assms(6) sub by (intro scanLines_recordLines) blast
    have dl: "decodeLines unmarshal (map jsonMarshal ?xs) = ?xs"
      using assms(6) sub by (intro decodeLines_records) blast
    show ?thesis using Some b s dl assms(4,5) by (simp add: Load_def)
  qed
qed

end
